theory Spec2Isabelle
  imports Main "HOL-Library.Word"
begin

section \<open>JavaScript values\<close>

text \<open>
  A JavaScript string is a sequence of UTF-16 code units, and \<open>.length\<close> counts them.
  String literals of the source are ASCII; \<open>lit\<close> embeds them.
\<close>

type_synonym jsstring = "16 word list"

definition lit :: "string \<Rightarrow> jsstring" where
  "lit s = map of_char s"

text \<open>
  The values a request body can hold (\<open>name: unknown\<close>): the JSON values, and
  \<open>undefined\<close> for a property that is absent. The payload of a number is not inspected by
  the code modelled here.
\<close>

datatype jsvalue =
    JSUndefined
  | JSNull
  | JSBoolean bool
  | JSNumber int
  | JSString jsstring
  | JSArray "jsvalue list"
  | JSObject "(jsstring \<times> jsvalue) list"

fun typeof :: "jsvalue \<Rightarrow> string" where
  "typeof JSUndefined = ''undefined''"
| "typeof JSNull = ''object''"
| "typeof (JSBoolean b) = ''boolean''"
| "typeof (JSNumber n) = ''number''"
| "typeof (JSString s) = ''string''"
| "typeof (JSArray xs) = ''object''"
| "typeof (JSObject kvs) = ''object''"

text \<open>
  \<open>Number.prototype.toString\<close> on an integer key: its decimal digits, with a minus sign
  when negative. (A database key is an integer well inside the range where a JavaScript
  number prints without an exponent.)
\<close>

definition digit_unit :: "nat \<Rightarrow> 16 word" where
  "digit_unit d = of_nat (48 + d)"

fun decimal :: "nat \<Rightarrow> jsstring" where
  "decimal n = (if n < 10 then [digit_unit n] else decimal (n div 10) @ [digit_unit (n mod 10)])"

definition Number_toString :: "int \<Rightarrow> jsstring" where
  "Number_toString i = (if i < 0 then lit ''-'' @ decimal (nat (- i)) else decimal (nat i))"

section \<open>Errors\<close>

text \<open>
  \<open>new ResponseHelper.ResponseError(message, errorCode, httpStatusCode)\<close>: the class is
  declared outside the sources at hand; the three constructor arguments are kept as the
  calls pass them (\<open>undefined\<close> is \<open>None\<close>). \<open>RoleMissing\<close> is the failure of the role
  lookup (see \<open>RoleService_get\<close>).
\<close>

datatype failure =
    ResponseError jsstring "nat option" "nat option"
  | RoleMissing jsstring jsstring

fun message :: "failure \<Rightarrow> jsstring" where
  "message (ResponseError m c s) = m"
| "message (RoleMissing sc n) = []"

fun httpStatusCode :: "failure \<Rightarrow> nat option" where
  "httpStatusCode (ResponseError m c s) = s"
| "httpStatusCode (RoleMissing sc n) = None"

section \<open>The relation store\<close>

text \<open>
  Rows of the tables the code reaches through \<open>Db.collections\<close> and
  \<open>getConnection()\<close>. The entity declarations are outside the sources at hand; the
  fields are those the code and the specification name. Tag, workflow and link keys are
  the store's integers (\<open>ITagDb.id\<close> is a number); user and credential identifiers are
  strings.
\<close>

record ITagDb =
  tag_id :: int
  tag_name :: jsstring
  createdAt :: nat
  updatedAt :: nat

record WorkflowEntity =
  wf_id :: int
  wf_name :: jsstring

record WorkflowTagLink =
  workflowId :: int
  tagId :: int

record User =
  user_id :: jsstring
  isGlobalOwner :: bool

record CredentialsEntity =
  cred_id :: jsstring
  cred_data :: jsstring

record Role =
  role_scope :: jsstring
  role_name :: jsstring

record SharedCredentials =
  credentials :: CredentialsEntity
  user :: User
  role :: Role

text \<open>
  The statements the code sends to the store, in the order sent. Keeping them in the
  state makes "which queries were made" a property of a run.
\<close>

datatype statement =
    SelectWorkflowsTags jsstring jsstring
  | FindOneTag jsstring
  | SelectTagsWithUsageCount
  | FindOneSharedCredentials jsstring "jsstring option"
  | FindOneRole jsstring jsstring
  | SaveSharedCredentials SharedCredentials
  | DeleteSharedCredentials jsstring jsstring

fun is_read :: "statement \<Rightarrow> bool" where
  "is_read (SaveSharedCredentials s) = False"
| "is_read (DeleteSharedCredentials c u) = False"
| "is_read _ = True"

text \<open>
  The code binds string parameters against the integer key columns
  (\<open>findOne({ where: { id } })\<close>, \<open>workflowId = :workflowId AND tagId = :tagId\<close>).
  Which texts select a key is decided by the store, which coerces the parameter by its
  own rules; the comparison is therefore a component of the store, \<open>key_matches\<close>, and
  nothing is assumed about it.
\<close>

record Db =
  tag_entity :: "ITagDb list"
  workflows_tags :: "WorkflowTagLink list"
  workflow_entity :: "WorkflowEntity list"
  shared_credentials :: "SharedCredentials list"
  roles :: "Role list"
  key_matches :: "int \<Rightarrow> jsstring \<Rightarrow> bool"
  executed :: "statement list"

definition execute :: "statement \<Rightarrow> Db \<Rightarrow> Db" where
  "execute st db = db\<lparr>executed := executed db @ [st]\<rparr>"

section \<open>Tag helpers\<close>

definition TAG_NAME_LENGTH_LIMIT :: nat where
  "TAG_NAME_LENGTH_LIMIT = 24"

subsection \<open>exists\<close>

definition Tag_findOne :: "jsstring \<Rightarrow> Db \<Rightarrow> ITagDb option \<times> Db" where
  "Tag_findOne ident db =
     (find (\<lambda>t. key_matches db (tag_id t) ident) (tag_entity db),
      execute (FindOneTag ident) db)"

definition exists :: "jsstring \<Rightarrow> Db \<Rightarrow> (failure + unit) \<times> Db" where
  "exists ident db =
     (case Tag_findOne ident db of
        (None, db') \<Rightarrow>
          (Inl (ResponseError (lit ''Tag with ID '' @ ident @ lit '' does not exist.'')
                  None (Some 400)), db')
      | (Some tag, db') \<Rightarrow> (Inr (), db'))"

subsection \<open>validateName\<close>

definition validateName :: "jsvalue \<Rightarrow> Db \<Rightarrow> (failure + unit) \<times> Db" where
  "validateName name db =
     (if name = JSUndefined then
        (Inl (ResponseError (lit ''Property 'name' missing from request body.'')
                None (Some 400)), db)
      else if typeof name \<noteq> ''string'' then
        (Inl (ResponseError (lit ''Property 'name' must be a string.'') None (Some 400)), db)
      else
        (case name of
           JSString s \<Rightarrow>
             if length s \<le> 0 \<or> length s > TAG_NAME_LENGTH_LIMIT then
               (Inl (ResponseError (lit ''Tag name must be 1 to 24 characters long.'')
                       None (Some 400)), db)
             else (Inr (), db)
         | _ \<Rightarrow> (Inr (), db)))"

subsection \<open>checkRelated and validateRelations\<close>

definition checkRelated :: "jsstring \<Rightarrow> jsstring \<Rightarrow> Db \<Rightarrow> bool \<times> Db" where
  "checkRelated wid tid db =
     (let result = filter (\<lambda>l. key_matches db (workflowId l) wid
                                  \<and> key_matches db (tagId l) tid)
                     (workflows_tags db)
      in (length result > 0, execute (SelectWorkflowsTags wid tid) db))"

fun validateRelations :: "jsstring \<Rightarrow> jsstring list \<Rightarrow> Db \<Rightarrow> (failure + unit) \<times> Db" where
  "validateRelations wid [] db = (Inr (), db)"
| "validateRelations wid (tid # tagIds) db =
     (case checkRelated wid tid db of
        (areRelated, db') \<Rightarrow>
          if areRelated then
            (Inl (ResponseError
                    (lit ''Workflow ID '' @ wid @ lit '' and tag ID '' @ tid
                       @ lit '' are already related.'')
                    None (Some 400)), db')
          else validateRelations wid tagIds db')"

subsection \<open>sortByRequestOrder\<close>

text \<open>
  \<open>tagMap\<close> is a plain object created by \<open>{}\<close>: its own properties are the keys the
  reduction writes, and a read of a key it does not own falls through to
  \<open>Object.prototype\<close>, whose properties are listed here. Reading one of those names gives
  the inherited member (a built-in function, or the prototype object for
  \<open>__proto__\<close>), not \<open>undefined\<close>.
\<close>

definition Object_prototype_keys :: "jsstring list" where
  "Object_prototype_keys = map lit
     [''constructor'', ''hasOwnProperty'', ''isPrototypeOf'', ''propertyIsEnumerable'',
      ''toLocaleString'', ''toString'', ''valueOf'', ''__proto__'',
      ''__defineGetter__'', ''__defineSetter__'', ''__lookupGetter__'',
      ''__lookupSetter__'']"

datatype slot = TagSlot ITagDb | InheritedSlot jsstring | UndefinedSlot

type_synonym tagMap = "jsstring \<rightharpoonup> ITagDb"

definition get_property :: "tagMap \<Rightarrow> jsstring \<Rightarrow> slot" where
  "get_property obj k =
     (case obj k of
        Some tag \<Rightarrow> TagSlot tag
      | None \<Rightarrow> if k \<in> set Object_prototype_keys then InheritedSlot k else UndefinedSlot)"

text \<open>
  The reduction writes \<open>acc[tag.id.toString()] = tag\<close>. The key is the decimal text of a
  number, which is never one of the inherited names (\<open>toString_not_inherited\<close> below), so
  every write creates or overwrites an own property.
\<close>

definition build_tagMap :: "ITagDb list \<Rightarrow> tagMap" where
  "build_tagMap tagsResponse =
     foldl (\<lambda>acc tag. acc(Number_toString (tag_id tag) \<mapsto> tag)) Map.empty tagsResponse"

definition sortByRequestOrder :: "ITagDb list \<Rightarrow> jsstring list \<Rightarrow> slot list" where
  "sortByRequestOrder tagsResponse tagIds =
     (let tagMap = build_tagMap tagsResponse
      in map (\<lambda>tagId. get_property tagMap tagId) tagIds)"

subsection \<open>getAllTagsWithUsageCount\<close>

text \<open>
  The query builder's statement, evaluated on the tables: two left joins (a row without
  a partner is kept, with nulls), grouping by \<open>tag_entity.id\<close>, and \<open>COUNT\<close> of a
  column, which counts the rows of the group where the column is not null.
\<close>

definition leftJoin :: "'a list \<Rightarrow> 'b list \<Rightarrow> ('a \<Rightarrow> 'b \<Rightarrow> bool) \<Rightarrow> ('a \<times> 'b option) list" where
  "leftJoin ls rs cond =
     concat (map (\<lambda>l. let ms = filter (cond l) rs
                      in if ms = [] then [(l, None)] else map (\<lambda>r. (l, Some r)) ms) ls)"

definition groupBy :: "('r \<Rightarrow> 'k) \<Rightarrow> 'r list \<Rightarrow> 'r list list" where
  "groupBy key rows = map (\<lambda>k. filter (\<lambda>r. key r = k) rows) (remdups (map key rows))"

definition COUNT :: "'c option list \<Rightarrow> nat" where
  "COUNT col = length (filter (\<lambda>v. v \<noteq> None) col)"

record TagWithUsageCount =
  row_id :: int
  row_name :: jsstring
  usageCount :: nat

type_synonym joined = "(ITagDb \<times> WorkflowTagLink option) \<times> WorkflowEntity option"

definition joined_rows :: "Db \<Rightarrow> joined list" where
  "joined_rows db =
     leftJoin
       (leftJoin (tag_entity db) (workflows_tags db) (\<lambda>t l. tagId l = tag_id t))
       (workflow_entity db)
       (\<lambda>(t, lo) w. case lo of None \<Rightarrow> False | Some l \<Rightarrow> workflowId l = wf_id w)"

definition select_group :: "joined list \<Rightarrow> TagWithUsageCount list" where
  "select_group g =
     (case g of
        [] \<Rightarrow> []
      | ((t, lo), wo) # rest \<Rightarrow>
          [\<lparr>row_id = tag_id t, row_name = tag_name t,
            usageCount = COUNT (map (\<lambda>r. map_option wf_id (snd r)) g)\<rparr>])"

definition getAllTagsWithUsageCount :: "Db \<Rightarrow> TagWithUsageCount list \<times> Db" where
  "getAllTagsWithUsageCount db =
     (concat (map select_group (groupBy (\<lambda>r. tag_id (fst (fst r))) (joined_rows db))),
      execute SelectTagsWithUsageCount db)"

section \<open>Credential sharing\<close>

text \<open>
  Modelled from the spec: \<open>CredentialsService.getSharing\<close>, which \<open>isOwned\<close> calls and
  which is not among the sources at hand. The specification (4.1) has it look up "an
  ownership-scoped sharing record for user against credentialId", with a "global owner"
  override that the caller allows or disallows: with the override allowed, a global
  owner's lookup is not narrowed to the user's own records. An ownership-scoped record
  is one whose role is the owner role of the credential scope.
\<close>

definition is_owner_role :: "Role \<Rightarrow> bool" where
  "is_owner_role r = (role_scope r = lit ''credential'' \<and> role_name r = lit ''owner'')"

definition getSharing ::
  "User \<Rightarrow> jsstring \<Rightarrow> jsstring list \<Rightarrow> bool \<Rightarrow> Db \<Rightarrow> SharedCredentials option \<times> Db" where
  "getSharing usr credentialId relations allowGlobalOwner db =
     (if allowGlobalOwner \<and> isGlobalOwner usr then
        (find (\<lambda>s. cred_id (credentials s) = credentialId) (shared_credentials db),
         execute (FindOneSharedCredentials credentialId None) db)
      else
        (find (\<lambda>s. cred_id (credentials s) = credentialId
                   \<and> user_id (user s) = user_id usr \<and> is_owner_role (role s))
           (shared_credentials db),
         execute (FindOneSharedCredentials credentialId (Some (user_id usr))) db))"

record Owned =
  ownsCredential :: bool
  credential :: "CredentialsEntity option"

definition isOwned :: "User \<Rightarrow> jsstring \<Rightarrow> Db \<Rightarrow> Owned \<times> Db" where
  "isOwned usr credentialId db =
     (case getSharing usr credentialId [lit ''credentials''] False db of
        (None, db') \<Rightarrow> (\<lparr>ownsCredential = False, credential = None\<rparr>, db')
      | (Some sharing, db') \<Rightarrow>
          (\<lparr>ownsCredential = True, credential = Some (credentials sharing)\<rparr>, db'))"

text \<open>
  Modelled from the spec: \<open>RoleService.get\<close>, not among the sources at hand. The
  specification has the Role Lookup resolve \<open>{scope, name}\<close> to a role, and \<open>share\<close>
  fail "if no such role exists".
\<close>

definition RoleService_get :: "jsstring \<Rightarrow> jsstring \<Rightarrow> Db \<Rightarrow> (failure + Role) \<times> Db" where
  "RoleService_get scope nm db =
     (case find (\<lambda>r. role_scope r = scope \<and> role_name r = nm) (roles db) of
        None \<Rightarrow> (Inl (RoleMissing scope nm), execute (FindOneRole scope nm) db)
      | Some r \<Rightarrow> (Inr r, execute (FindOneRole scope nm) db))"

text \<open>
  The store's \<open>save\<close> and \<open>delete\<close> on the \<open>SharedCredentials\<close> collection. \<open>save\<close>
  inserts the record, or replaces the row with the same key, the pair of credential and
  user (the specification's "at most one share row per pair"). \<open>delete\<close> removes every
  row that matches the criteria and reports how many it removed; removing none is not an
  error.
\<close>

definition same_pair :: "jsstring \<Rightarrow> jsstring \<Rightarrow> SharedCredentials \<Rightarrow> bool" where
  "same_pair credentialId userId s =
     (cred_id (credentials s) = credentialId \<and> user_id (user s) = userId)"

definition SharedCredentials_save :: "SharedCredentials \<Rightarrow> Db \<Rightarrow> SharedCredentials \<times> Db" where
  "SharedCredentials_save s db =
     (s, execute (SaveSharedCredentials s)
           (db\<lparr>shared_credentials :=
                 filter (\<lambda>r. \<not> same_pair (cred_id (credentials s)) (user_id (user s)) r)
                   (shared_credentials db) @ [s]\<rparr>))"

definition SharedCredentials_delete :: "jsstring \<Rightarrow> jsstring \<Rightarrow> Db \<Rightarrow> nat \<times> Db" where
  "SharedCredentials_delete credentialId userId db =
     (length (filter (same_pair credentialId userId) (shared_credentials db)),
      execute (DeleteSharedCredentials credentialId userId)
        (db\<lparr>shared_credentials :=
              filter (\<lambda>r. \<not> same_pair credentialId userId r) (shared_credentials db)\<rparr>))"

definition share :: "CredentialsEntity \<Rightarrow> User \<Rightarrow> Db \<Rightarrow> (failure + SharedCredentials) \<times> Db" where
  "share cred sharee db =
     (case RoleService_get (lit ''credential'') (lit ''editor'') db of
        (Inl e, db') \<Rightarrow> (Inl e, db')
      | (Inr r, db') \<Rightarrow>
          (case SharedCredentials_save \<lparr>credentials = cred, user = sharee, role = r\<rparr> db' of
             (saved, db'') \<Rightarrow> (Inr saved, db'')))"

definition unshare :: "jsstring \<Rightarrow> jsstring \<Rightarrow> Db \<Rightarrow> (failure + unit) \<times> Db" where
  "unshare credentialId shareeId db =
     (case SharedCredentials_delete credentialId shareeId db of
        (affected, db') \<Rightarrow> (Inr (), db'))"

section \<open>Example data\<close>

text \<open>
  The comparison of the example store reads the text as a decimal integer, as a
  database coercing the parameter to the column's type does: an optional minus sign and
  digits, leading zeros allowed. So \<open>02\<close> selects key 2, and \<open>x\<close> selects no key.
\<close>

definition digit_of :: "16 word \<Rightarrow> nat option" where
  "digit_of c = (if 48 \<le> unat c \<and> unat c \<le> 57 then Some (unat c - 48) else None)"

fun read_digits :: "nat \<Rightarrow> jsstring \<Rightarrow> nat option" where
  "read_digits acc [] = Some acc"
| "read_digits acc (c # cs) =
     (case digit_of c of None \<Rightarrow> None | Some d \<Rightarrow> read_digits (10 * acc + d) cs)"

definition read_integer :: "jsstring \<Rightarrow> int option" where
  "read_integer p =
     (case p of
        [] \<Rightarrow> None
      | c # cs \<Rightarrow>
          if c = 45 then
            (if cs = [] then None else map_option (\<lambda>n. - int n) (read_digits 0 cs))
          else map_option int (read_digits 0 p))"

definition numeric_match :: "int \<Rightarrow> jsstring \<Rightarrow> bool" where
  "numeric_match k p = (read_integer p = Some k)"

text \<open>
  A small store used to run the functions on concrete inputs: tags 1 to 3, workflows 10
  and 11, workflow 10 tagged 1 and 2, workflow 11 tagged 2; Ann owns credential
  \<open>c1\<close>, Bob has no record for it and is a global owner; the editor role exists.
\<close>

definition tag1 :: ITagDb where
  "tag1 = \<lparr>tag_id = 1, tag_name = lit ''alpha'', createdAt = 0, updatedAt = 0\<rparr>"

definition tag2 :: ITagDb where
  "tag2 = \<lparr>tag_id = 2, tag_name = lit ''beta'', createdAt = 0, updatedAt = 0\<rparr>"

definition tag3 :: ITagDb where
  "tag3 = \<lparr>tag_id = 3, tag_name = lit ''gamma'', createdAt = 0, updatedAt = 0\<rparr>"

definition tag2_later :: ITagDb where
  "tag2_later = \<lparr>tag_id = 2, tag_name = lit ''beta2'', createdAt = 5, updatedAt = 7\<rparr>"

definition ann :: User where
  "ann = \<lparr>user_id = lit ''ann'', isGlobalOwner = False\<rparr>"

definition bob :: User where
  "bob = \<lparr>user_id = lit ''bob'', isGlobalOwner = True\<rparr>"

definition cred1 :: CredentialsEntity where
  "cred1 = \<lparr>cred_id = lit ''c1'', cred_data = lit ''secret''\<rparr>"

definition owner_role :: Role where
  "owner_role = \<lparr>role_scope = lit ''credential'', role_name = lit ''owner''\<rparr>"

definition editor_role :: Role where
  "editor_role = \<lparr>role_scope = lit ''credential'', role_name = lit ''editor''\<rparr>"

definition example_db :: Db where
  "example_db =
     \<lparr>tag_entity = [tag1, tag2, tag3],
      workflows_tags =
        [\<lparr>workflowId = 10, tagId = 1\<rparr>, \<lparr>workflowId = 10, tagId = 2\<rparr>,
         \<lparr>workflowId = 11, tagId = 2\<rparr>],
      workflow_entity =
        [\<lparr>wf_id = 10, wf_name = lit ''first''\<rparr>, \<lparr>wf_id = 11, wf_name = lit ''second''\<rparr>],
      shared_credentials = [\<lparr>credentials = cred1, user = ann, role = owner_role\<rparr>],
      roles = [owner_role, editor_role],
      key_matches = numeric_match,
      executed = []\<rparr>"

definition no_roles_db :: Db where
  "no_roles_db = example_db\<lparr>roles := []\<rparr>"

section \<open>Predicates of the statements\<close>

text \<open>
  A workflow and a tag are linked when the link table holds a row for the pair, as
  \<open>checkRelated\<close>'s filter selects it.
\<close>

abbreviation linked :: "Db \<Rightarrow> jsstring \<Rightarrow> jsstring \<Rightarrow> bool" where
  "linked db wid tid \<equiv>
     \<exists>l \<in> set (workflows_tags db).
        key_matches db (workflowId l) wid \<and> key_matches db (tagId l) tid"

text \<open>
  The primary keys the store enforces: a tag has one row, a workflow has one row, and a
  pair of workflow and tag has at most one link row.
\<close>

definition primary_keys :: "Db \<Rightarrow> bool" where
  "primary_keys db =
     (distinct (map tag_id (tag_entity db))
      \<and> distinct (workflows_tags db)
      \<and> distinct (map wf_id (workflow_entity db)))"

text \<open>The workflows linked to a tag: the stored workflows with a link row to the tag.\<close>

definition workflows_of :: "Db \<Rightarrow> ITagDb \<Rightarrow> WorkflowEntity set" where
  "workflows_of db t =
     {w \<in> set (workflow_entity db).
        \<exists>l \<in> set (workflows_tags db). workflowId l = wf_id w \<and> tagId l = tag_id t}"

text \<open>The rows of the double join that stem from one tag.\<close>

definition tag_rows :: "Db \<Rightarrow> ITagDb \<Rightarrow> joined list" where
  "tag_rows db t =
     leftJoin
       (leftJoin [t] (workflows_tags db) (\<lambda>t l. tagId l = tag_id t))
       (workflow_entity db)
       (\<lambda>(t, lo) w. case lo of None \<Rightarrow> False | Some l \<Rightarrow> workflowId l = wf_id w)"

section \<open>Helper lemmas\<close>

lemma length_lit [simp]: "length (lit s) = length s"
  by (simp add: lit_def)

lemma workflows_tags_execute [simp]: "workflows_tags (execute st db) = workflows_tags db"
  by (simp add: execute_def)

lemma key_matches_execute [simp]: "key_matches (execute st db) = key_matches db"
  by (simp add: execute_def)

lemma checkRelated_eq:
  "checkRelated wid tid db = (linked db wid tid, execute (SelectWorkflowsTags wid tid) db)"
  by (auto simp: checkRelated_def Let_def filter_empty_conv)

lemma validateRelations_all_clear:
  "\<forall>p \<in> set ids. \<not> linked db wid p \<Longrightarrow>
   validateRelations wid ids db =
     (Inr (), db\<lparr>executed := executed db @ map (SelectWorkflowsTags wid) ids\<rparr>)"
proof (induction ids arbitrary: db)
  case Nil
  then show ?case by simp
next
  case (Cons t ids)
  have "\<forall>p \<in> set ids. \<not> linked (execute (SelectWorkflowsTags wid t) db) wid p"
    using Cons.prems by simp
  moreover have "checkRelated wid t db = (False, execute (SelectWorkflowsTags wid t) db)"
    using Cons.prems by (simp add: checkRelated_eq)
  ultimately show ?case
    using Cons.IH [of "execute (SelectWorkflowsTags wid t) db"] by (simp add: execute_def)
qed

lemma validateRelations_first_linked:
  "\<forall>p \<in> set pre. \<not> linked db wid p \<Longrightarrow> linked db wid t \<Longrightarrow>
   validateRelations wid (pre @ t # later) db =
     (Inl (ResponseError
             (lit ''Workflow ID '' @ wid @ lit '' and tag ID '' @ t
                @ lit '' are already related.'')
             None (Some 400)),
      db\<lparr>executed := executed db @ map (SelectWorkflowsTags wid) (pre @ [t])\<rparr>)"
proof (induction pre arbitrary: db)
  case Nil
  then show ?case by (simp add: checkRelated_eq execute_def)
next
  case (Cons p pre)
  have a: "\<forall>q \<in> set pre. \<not> linked (execute (SelectWorkflowsTags wid p) db) wid q"
    using Cons.prems by simp
  have b: "linked (execute (SelectWorkflowsTags wid p) db) wid t"
    using Cons.prems by simp
  have c: "checkRelated wid p db = (False, execute (SelectWorkflowsTags wid p) db)"
    using Cons.prems by (simp add: checkRelated_eq)
  from Cons.IH [OF a b] c show ?case
    by (simp add: execute_def)
qed

lemma validateRelations_ok_iff:
  "(fst (validateRelations wid ids db) = Inr ()) = (\<forall>t \<in> set ids. \<not> linked db wid t)"
proof (cases "\<forall>t \<in> set ids. \<not> linked db wid t")
  case True
  then show ?thesis by (simp add: validateRelations_all_clear)
next
  case False
  then obtain pre t later where
    "ids = pre @ t # later" "linked db wid t" "\<forall>p \<in> set pre. \<not> linked db wid p"
    using split_list_first_prop [of ids "\<lambda>t. linked db wid t"] by auto
  with False show ?thesis
    using validateRelations_first_linked [of pre db wid t later] by simp
qed

lemma decimal_first: "decimal n \<noteq> [] \<and> (\<exists>d<10. hd (decimal n) = digit_unit d)"
proof (induction n rule: decimal.induct)
  case (1 n)
  show ?case
  proof (cases "n < 10")
    case True
    then show ?thesis by auto
  next
    case False
    with 1 have "decimal (n div 10) \<noteq> [] \<and> (\<exists>d<10. hd (decimal (n div 10)) = digit_unit d)"
      by simp
    with False show ?thesis
      by (subst decimal.simps) simp
  qed
qed

lemma unat_digit_unit: "d < 10 \<Longrightarrow> unat (digit_unit d) = 48 + d"
  unfolding digit_unit_def by (subst unat_of_nat) simp

lemma Number_toString_first:
  "Number_toString i \<noteq> [] \<and> unat (hd (Number_toString i)) < 58"
proof (cases "i < 0")
  case True
  then show ?thesis by (simp add: Number_toString_def lit_def)
next
  case False
  obtain d where "d < 10" "hd (decimal (nat i)) = digit_unit d" "decimal (nat i) \<noteq> []"
    using decimal_first [of "nat i"] by blast
  with False show ?thesis
    by (simp add: Number_toString_def unat_digit_unit)
qed

lemma Object_prototype_keys_first:
  "k \<in> set Object_prototype_keys \<Longrightarrow> k \<noteq> [] \<and> 95 \<le> unat (hd k)"
  by (auto simp: Object_prototype_keys_def lit_def)

lemma toString_not_inherited: "Number_toString i \<notin> set Object_prototype_keys"
  using Number_toString_first [of i] Object_prototype_keys_first [of "Number_toString i"]
  by fastforce

lemma build_tagMap_snoc:
  "build_tagMap (ts @ [t]) = (build_tagMap ts)(Number_toString (tag_id t) \<mapsto> t)"
  by (simp add: build_tagMap_def)

lemma build_tagMap_lookup:
  "build_tagMap ts k = find (\<lambda>t. Number_toString (tag_id t) = k) (rev ts)"
proof (induction ts rule: rev_induct)
  case Nil
  then show ?case by (simp add: build_tagMap_def)
next
  case (snoc t ts)
  then show ?case by (simp add: build_tagMap_snoc)
qed

lemma build_tagMap_last:
  "\<forall>u \<in> set later. Number_toString (tag_id u) \<noteq> Number_toString (tag_id t) \<Longrightarrow>
   build_tagMap (earlier @ t # later) (Number_toString (tag_id t)) = Some t"
  by (induction later rule: rev_induct)
     (simp_all add: build_tagMap_lookup)

lemma build_tagMap_none:
  "(build_tagMap ts k = None) = (\<not> (\<exists>t \<in> set ts. Number_toString (tag_id t) = k))"
  by (auto simp: build_tagMap_lookup find_None_iff)

lemma find_Some_member: "find P xs = Some x \<Longrightarrow> x \<in> set xs \<and> P x"
  by (induction xs) (auto split: if_splits)

lemma build_tagMap_some:
  "build_tagMap ts k = Some t \<Longrightarrow> t \<in> set ts \<and> Number_toString (tag_id t) = k"
  using find_Some_member [of "\<lambda>t. Number_toString (tag_id t) = k" "rev ts" t]
  by (simp add: build_tagMap_lookup)

lemma sortByRequestOrder_length: "length (sortByRequestOrder tagsResponse tagIds) = length tagIds"
  by (simp add: sortByRequestOrder_def)

lemma sortByRequestOrder_nth:
  "i < length tagIds \<Longrightarrow>
   sortByRequestOrder tagsResponse tagIds ! i = get_property (build_tagMap tagsResponse) (tagIds ! i)"
  by (simp add: sortByRequestOrder_def)

lemma sortByRequestOrder_slots:
  assumes "i < length tagIds"
  shows "(\<exists>t \<in> set tagsResponse. Number_toString (tag_id t) = tagIds ! i) \<Longrightarrow>
           \<exists>t \<in> set tagsResponse. Number_toString (tag_id t) = tagIds ! i
              \<and> sortByRequestOrder tagsResponse tagIds ! i = TagSlot t"
    and "\<not> (\<exists>t \<in> set tagsResponse. Number_toString (tag_id t) = tagIds ! i) \<Longrightarrow>
           tagIds ! i \<notin> set Object_prototype_keys \<Longrightarrow>
           sortByRequestOrder tagsResponse tagIds ! i = UndefinedSlot"
    and "tagIds ! i \<in> set Object_prototype_keys \<Longrightarrow>
           sortByRequestOrder tagsResponse tagIds ! i = InheritedSlot (tagIds ! i)"
proof -
  let ?k = "tagIds ! i"
  note nth = sortByRequestOrder_nth [OF assms, of tagsResponse]
  {
    assume "\<exists>t \<in> set tagsResponse. Number_toString (tag_id t) = ?k"
    then have "build_tagMap tagsResponse ?k \<noteq> None"
      by (simp add: build_tagMap_none)
    then obtain t where t: "build_tagMap tagsResponse ?k = Some t" by auto
    from build_tagMap_some [OF t] t nth
    show "\<exists>t \<in> set tagsResponse. Number_toString (tag_id t) = ?k
              \<and> sortByRequestOrder tagsResponse tagIds ! i = TagSlot t"
      by (auto simp: get_property_def)
  }
  {
    assume "\<not> (\<exists>t \<in> set tagsResponse. Number_toString (tag_id t) = ?k)"
      and "?k \<notin> set Object_prototype_keys"
    then show "sortByRequestOrder tagsResponse tagIds ! i = UndefinedSlot"
      using nth build_tagMap_none [of tagsResponse ?k] by (simp add: get_property_def)
  }
  {
    assume k: "?k \<in> set Object_prototype_keys"
    have "build_tagMap tagsResponse ?k = None"
    proof (rule ccontr)
      assume "build_tagMap tagsResponse ?k \<noteq> None"
      then obtain t where "build_tagMap tagsResponse ?k = Some t" by auto
      from build_tagMap_some [OF this] k toString_not_inherited [of "tag_id t"]
      show False by simp
    qed
    with k nth show "sortByRequestOrder tagsResponse tagIds ! i = InheritedSlot ?k"
      by (simp add: get_property_def)
  }
qed

lemma isOwned_found:
  "find (\<lambda>s. same_pair cid (user_id usr) s \<and> is_owner_role (role s)) (shared_credentials db)
     = Some s \<Longrightarrow>
   isOwned usr cid db =
     (\<lparr>ownsCredential = True, credential = Some (credentials s)\<rparr>,
      db\<lparr>executed := executed db @ [FindOneSharedCredentials cid (Some (user_id usr))]\<rparr>)"
  by (simp add: isOwned_def getSharing_def same_pair_def execute_def conj_assoc)

lemma isOwned_not_found:
  "find (\<lambda>s. same_pair cid (user_id usr) s \<and> is_owner_role (role s)) (shared_credentials db)
     = None \<Longrightarrow>
   isOwned usr cid db =
     (\<lparr>ownsCredential = False, credential = None\<rparr>,
      db\<lparr>executed := executed db @ [FindOneSharedCredentials cid (Some (user_id usr))]\<rparr>)"
  by (simp add: isOwned_def getSharing_def same_pair_def execute_def conj_assoc)

lemma RoleService_get_log:
  "snd (RoleService_get scope nm db) = db\<lparr>executed := executed db @ [FindOneRole scope nm]\<rparr>"
  by (simp add: RoleService_get_def execute_def split: option.splits)

lemma share_role_missing:
  "fst (RoleService_get (lit ''credential'') (lit ''editor'') db) = Inl e \<Longrightarrow>
   share cred sharee db =
     (Inl e, db\<lparr>executed := executed db @ [FindOneRole (lit ''credential'') (lit ''editor'')]\<rparr>)"
  using RoleService_get_log [of "lit ''credential''" "lit ''editor''" db]
  by (cases "RoleService_get (lit ''credential'') (lit ''editor'') db") (simp add: share_def)

lemma share_role_found:
  "fst (RoleService_get (lit ''credential'') (lit ''editor'') db) = Inr r \<Longrightarrow>
   share cred sharee db =
     (Inr \<lparr>credentials = cred, user = sharee, role = r\<rparr>,
      db\<lparr>shared_credentials :=
           filter (\<lambda>x. \<not> same_pair (cred_id cred) (user_id sharee) x) (shared_credentials db)
             @ [\<lparr>credentials = cred, user = sharee, role = r\<rparr>],
         executed := executed db @
           [FindOneRole (lit ''credential'') (lit ''editor''),
            SaveSharedCredentials \<lparr>credentials = cred, user = sharee, role = r\<rparr>]\<rparr>)"
  using RoleService_get_log [of "lit ''credential''" "lit ''editor''" db]
  by (cases "RoleService_get (lit ''credential'') (lit ''editor'') db")
     (simp add: share_def SharedCredentials_save_def execute_def)

lemma unshare_eq:
  "unshare cid uid db =
     (Inr (),
      db\<lparr>shared_credentials := filter (\<lambda>r. \<not> same_pair cid uid r) (shared_credentials db),
         executed := executed db @ [DeleteSharedCredentials cid uid]\<rparr>)"
  by (simp add: unshare_def SharedCredentials_delete_def execute_def)

lemma shared_credentials_share:
  "filter (\<lambda>x. \<not> same_pair (cred_id cred) (user_id sharee) x)
       (shared_credentials (snd (share cred sharee db)))
     = filter (\<lambda>x. \<not> same_pair (cred_id cred) (user_id sharee) x) (shared_credentials db)"
proof (cases "fst (RoleService_get (lit ''credential'') (lit ''editor'') db)")
  case (Inl e)
  from share_role_missing [OF Inl] show ?thesis by simp
next
  case (Inr r)
  from share_role_found [OF Inr] show ?thesis by (simp add: same_pair_def)
qed

lemma leftJoin_Nil [simp]: "leftJoin [] rs c = []"
  by (simp add: leftJoin_def)

lemma leftJoin_append: "leftJoin (xs @ ys) rs c = leftJoin xs rs c @ leftJoin ys rs c"
  by (simp add: leftJoin_def)

lemma leftJoin_Cons: "leftJoin (x # xs) rs c = leftJoin [x] rs c @ leftJoin xs rs c"
  using leftJoin_append [of "[x]" xs rs c] by simp

lemma leftJoin_concat: "leftJoin (concat xss) rs c = concat (map (\<lambda>xs. leftJoin xs rs c) xss)"
  by (induction xss) (simp_all add: leftJoin_append)

lemma leftJoin_fst: "r \<in> set (leftJoin ls rs c) \<Longrightarrow> fst r \<in> set ls"
  by (auto simp: leftJoin_def Let_def split: if_splits)

lemma leftJoin_empty: "(leftJoin ls rs c = []) = (ls = [])"
  by (cases ls) (auto simp: leftJoin_def Let_def)

lemma leftJoin_nonnull:
  "length (filter (\<lambda>r. snd r \<noteq> None) (leftJoin ls rs c))
     = sum_list (map (\<lambda>l. length (filter (c l) rs)) ls)"
proof (induction ls)
  case Nil
  then show ?case by simp
next
  case (Cons l ls)
  have "length (filter (\<lambda>r. snd r \<noteq> None) (leftJoin [l] rs c)) = length (filter (c l) rs)"
    by (simp add: leftJoin_def Let_def filter_map comp_def)
  with Cons show ?case
    by (subst leftJoin_Cons) simp
qed

lemma remdups_replicate_append:
  "0 < n \<Longrightarrow> x \<notin> set ys \<Longrightarrow> remdups (replicate n x @ ys) = x # remdups ys"
proof (induction n)
  case 0
  then show ?case by simp
next
  case (Suc n)
  show ?case
  proof (cases "n = 0")
    case True
    with Suc.prems show ?thesis by simp
  next
    case False
    with Suc show ?thesis by simp
  qed
qed

lemma map_key_constant:
  "\<forall>r \<in> set rows. key r = k \<Longrightarrow> map key rows = replicate (length rows) k"
  by (induction rows) simp_all

lemma groupBy_concat:
  assumes "distinct (map k ts)"
    and "\<forall>t \<in> set ts. f t \<noteq> [] \<and> (\<forall>r \<in> set (f t). key r = k t)"
  shows "groupBy key (concat (map f ts)) = map f ts"
  using assms
proof (induction ts)
  case Nil
  then show ?case by (simp add: groupBy_def)
next
  case (Cons t ts)
  let ?rest = "concat (map f ts)"
  have ft: "f t \<noteq> []" "\<forall>r \<in> set (f t). key r = k t"
    using Cons.prems by simp_all
  have rest_keys: "\<forall>r \<in> set ?rest. key r \<in> k ` set ts"
    using Cons.prems by auto
  have fresh: "k t \<notin> k ` set ts"
    using Cons.prems by simp
  have not_rest: "k t \<notin> set (map key ?rest)"
    using rest_keys fresh by auto
  have keys: "remdups (map key (f t @ ?rest)) = k t # remdups (map key ?rest)"
    using remdups_replicate_append [of "length (f t)" "k t" "map key ?rest"]
      map_key_constant [of "f t" key "k t"] ft not_rest
    by simp
  have own: "filter (\<lambda>r. key r = k t) (f t @ ?rest) = f t"
  proof -
    have "filter (\<lambda>r. key r = k t) (f t) = f t"
      using ft by (simp add: filter_id_conv)
    moreover have "filter (\<lambda>r. key r = k t) ?rest = []"
      unfolding filter_empty_conv using rest_keys fresh by metis
    ultimately show ?thesis by simp
  qed
  have others: "map (\<lambda>k'. filter (\<lambda>r. key r = k') (f t @ ?rest)) (remdups (map key ?rest))
                  = map (\<lambda>k'. filter (\<lambda>r. key r = k') ?rest) (remdups (map key ?rest))"
  proof (rule map_cong [OF refl])
    fix k'
    assume "k' \<in> set (remdups (map key ?rest))"
    then have "k' \<in> set (map key ?rest)"
      by (simp only: set_remdups)
    with not_rest have "k' \<noteq> k t"
      by blast
    then have "filter (\<lambda>r. key r = k') (f t) = []"
      using ft by (auto simp: filter_empty_conv)
    then show "filter (\<lambda>r. key r = k') (f t @ ?rest) = filter (\<lambda>r. key r = k') ?rest"
      by simp
  qed
  have ih: "groupBy key ?rest = map f ts"
    using Cons by simp
  have "groupBy key (concat (map f (t # ts))) = f t # groupBy key ?rest"
    using keys own others by (simp add: groupBy_def)
  with ih show ?case by simp
qed

lemma leftJoin_singletons: "leftJoin ls rs c = concat (map (\<lambda>l. leftJoin [l] rs c) ls)"
  by (induction ls) (simp_all add: leftJoin_def)

lemma joined_rows_by_tag: "joined_rows db = concat (map (tag_rows db) (tag_entity db))"
proof -
  have "leftJoin (tag_entity db) (workflows_tags db) (\<lambda>t l. tagId l = tag_id t)
          = concat (map (\<lambda>t. leftJoin [t] (workflows_tags db) (\<lambda>t l. tagId l = tag_id t))
                      (tag_entity db))"
    by (rule leftJoin_singletons)
  moreover have "tag_rows db =
      (\<lambda>t. leftJoin (leftJoin [t] (workflows_tags db) (\<lambda>t l. tagId l = tag_id t))
             (workflow_entity db)
             (\<lambda>(t, lo) w. case lo of None \<Rightarrow> False | Some l \<Rightarrow> workflowId l = wf_id w))"
    by (rule ext) (simp add: tag_rows_def)
  ultimately show ?thesis
    by (simp add: joined_rows_def leftJoin_concat comp_def)
qed

lemma tag_rows_nonempty: "tag_rows db t \<noteq> []"
  by (simp add: tag_rows_def leftJoin_empty)

lemma tag_rows_tag: "r \<in> set (tag_rows db t) \<Longrightarrow> fst (fst r) = t"
proof -
  assume "r \<in> set (tag_rows db t)"
  then have "fst r \<in> set (leftJoin [t] (workflows_tags db) (\<lambda>t l. tagId l = tag_id t))"
    unfolding tag_rows_def by (rule leftJoin_fst)
  then have "fst (fst r) \<in> set [t]"
    by (rule leftJoin_fst)
  then show ?thesis by simp
qed

lemma groups_by_tag:
  "distinct (map tag_id (tag_entity db)) \<Longrightarrow>
   groupBy (\<lambda>r. tag_id (fst (fst r))) (joined_rows db) = map (tag_rows db) (tag_entity db)"
  unfolding joined_rows_by_tag
  by (rule groupBy_concat) (auto simp: tag_rows_nonempty tag_rows_tag)

lemma select_group_tag_rows:
  "select_group (tag_rows db t) =
     [\<lparr>row_id = tag_id t, row_name = tag_name t,
       usageCount = COUNT (map (\<lambda>r. map_option wf_id (snd r)) (tag_rows db t))\<rparr>]"
proof (cases "tag_rows db t")
  case Nil
  with tag_rows_nonempty show ?thesis by blast
next
  case (Cons r rest)
  then have "fst (fst r) = t"
    using tag_rows_tag [of r db t] by simp
  with Cons show ?thesis
    by (cases r) (auto simp: select_group_def)
qed

lemma COUNT_workflow_ids:
  "COUNT (map (\<lambda>r. map_option wf_id (snd r)) rows)
     = length (filter (\<lambda>r. snd r \<noteq> None) rows)"
  by (induction rows) (simp_all add: COUNT_def)

lemma COUNT_tag_rows:
  "COUNT (map (\<lambda>r. map_option wf_id (snd r)) (tag_rows db t))
     = length (concat (map (\<lambda>l. filter (\<lambda>w. workflowId l = wf_id w) (workflow_entity db))
                         (filter (\<lambda>l. tagId l = tag_id t) (workflows_tags db))))"
proof -
  let ?L = "filter (\<lambda>l. tagId l = tag_id t) (workflows_tags db)"
  let ?c2 = "\<lambda>(t, lo) w. case lo of None \<Rightarrow> False | Some l \<Rightarrow> workflowId l = wf_id w"
  have first: "leftJoin [t] (workflows_tags db) (\<lambda>t l. tagId l = tag_id t)
                 = (if ?L = [] then [(t, None)] else map (\<lambda>l. (t, Some l)) ?L)"
    by (simp add: leftJoin_def Let_def)
  have "sum_list (map (\<lambda>x. length (filter (?c2 x) (workflow_entity db)))
                   (leftJoin [t] (workflows_tags db) (\<lambda>t l. tagId l = tag_id t)))
          = sum_list (map (\<lambda>l. length (filter (\<lambda>w. workflowId l = wf_id w) (workflow_entity db))) ?L)"
  proof (cases "?L = []")
    case True
    with first show ?thesis by simp
  next
    case False
    with first show ?thesis by (simp add: comp_def)
  qed
  note middle = this
  have "COUNT (map (\<lambda>r. map_option wf_id (snd r)) (tag_rows db t))
          = length (filter (\<lambda>r. snd r \<noteq> None) (tag_rows db t))"
    by (rule COUNT_workflow_ids)
  also have "\<dots> = sum_list (map (\<lambda>x. length (filter (?c2 x) (workflow_entity db)))
                   (leftJoin [t] (workflows_tags db) (\<lambda>t l. tagId l = tag_id t)))"
    unfolding tag_rows_def by (rule leftJoin_nonnull)
  also note middle
  also have "sum_list (map (\<lambda>l. length (filter (\<lambda>w. workflowId l = wf_id w) (workflow_entity db))) ?L)
          = length (concat (map (\<lambda>l. filter (\<lambda>w. workflowId l = wf_id w) (workflow_entity db)) ?L))"
    by (simp add: length_concat comp_def)
  finally show ?thesis .
qed

lemma distinct_matches:
  "distinct (map workflowId ls) \<Longrightarrow> distinct ws \<Longrightarrow>
   distinct (concat (map (\<lambda>l. filter (\<lambda>w. workflowId l = wf_id w) ws) ls))"
  by (induction ls) (fastforce simp: image_iff)+

lemma link_eqI:
  "workflowId (x :: WorkflowTagLink) = workflowId y \<Longrightarrow> tagId x = tagId y \<Longrightarrow> x = y"
  by simp

lemma distinct_links_of_tag:
  assumes "distinct (ls :: WorkflowTagLink list)"
  shows "distinct (map workflowId (filter (\<lambda>l. tagId l = k) ls))"
proof -
  have "inj_on workflowId (set (filter (\<lambda>l. tagId l = k) ls))"
    by (rule inj_onI) (auto intro: link_eqI)
  with assms show ?thesis
    by (simp add: distinct_map)
qed

lemma usage_is_card:
  assumes "primary_keys db"
  shows "COUNT (map (\<lambda>r. map_option wf_id (snd r)) (tag_rows db t)) = card (workflows_of db t)"
proof -
  let ?M = "concat (map (\<lambda>l. filter (\<lambda>w. workflowId l = wf_id w) (workflow_entity db))
                      (filter (\<lambda>l. tagId l = tag_id t) (workflows_tags db)))"
  have "distinct (workflow_entity db)"
    using assms by (simp add: primary_keys_def distinct_map)
  moreover have "distinct (map workflowId (filter (\<lambda>l. tagId l = tag_id t) (workflows_tags db)))"
    using assms by (simp add: primary_keys_def distinct_links_of_tag)
  ultimately have "distinct ?M"
    by (simp add: distinct_matches)
  then have "card (set ?M) = length ?M"
    by (rule distinct_card)
  moreover have "set ?M = workflows_of db t"
    by (auto simp: workflows_of_def)
  ultimately show ?thesis
    by (simp add: COUNT_tag_rows)
qed

lemma getAllTagsWithUsageCount_rows:
  assumes "primary_keys db"
  shows "fst (getAllTagsWithUsageCount db) =
           map (\<lambda>t. \<lparr>row_id = tag_id t, row_name = tag_name t,
                      usageCount = card (workflows_of db t)\<rparr>) (tag_entity db)"
proof -
  have "distinct (map tag_id (tag_entity db))"
    using assms by (simp add: primary_keys_def)
  then have "fst (getAllTagsWithUsageCount db)
               = concat (map (\<lambda>t. select_group (tag_rows db t)) (tag_entity db))"
    by (simp add: getAllTagsWithUsageCount_def groups_by_tag comp_def)
  also have "\<dots> = map (\<lambda>t. \<lparr>row_id = tag_id t, row_name = tag_name t,
                      usageCount = card (workflows_of db t)\<rparr>) (tag_entity db)"
    by (induction "tag_entity db") (simp_all add: select_group_tag_rows usage_is_card [OF assms])
  finally show ?thesis .
qed

lemma workflows_of_filter:
  "workflows_of db t =
     set (filter (\<lambda>w. \<exists>l \<in> set (workflows_tags db). workflowId l = wf_id w \<and> tagId l = tag_id t)
            (workflow_entity db))"
  by (auto simp: workflows_of_def)

section \<open>Tag name validation\<close>

text \<open>
  C3. \<open>validateName\<close> checks in order and stops at the first failure: an absent name
  is refused as missing; otherwise a value that is not a string is refused; otherwise a
  string of length 0 or above 24 is refused; every string of 1 to 24 code units is
  accepted. Every refusal is a \<open>ResponseError\<close> with status 400.
\<close>

theorem validateName_order:
  "fst (validateName JSUndefined db) =
     Inl (ResponseError (lit ''Property 'name' missing from request body.'') None (Some 400))
   \<and> (name \<noteq> JSUndefined \<and> typeof name \<noteq> ''string'' \<longrightarrow>
        fst (validateName name db) =
          Inl (ResponseError (lit ''Property 'name' must be a string.'') None (Some 400)))
   \<and> (length s = 0 \<or> 24 < length s \<longrightarrow>
        fst (validateName (JSString s) db) =
          Inl (ResponseError (lit ''Tag name must be 1 to 24 characters long.'')
                 None (Some 400)))
   \<and> (1 \<le> length s' \<and> length s' \<le> 24 \<longrightarrow> validateName (JSString s') db = (Inr (), db))"
  by (auto simp: validateName_def TAG_NAME_LENGTH_LIMIT_def)

theorem validateName_order_witness:
  "fst (validateName (JSNumber 7) example_db) =
     Inl (ResponseError (lit ''Property 'name' must be a string.'') None (Some 400))
   \<and> fst (validateName (JSString []) example_db) =
     Inl (ResponseError (lit ''Tag name must be 1 to 24 characters long.'') None (Some 400))
   \<and> fst (validateName (JSString (replicate 25 (of_char CHR ''a''))) example_db) =
     Inl (ResponseError (lit ''Tag name must be 1 to 24 characters long.'') None (Some 400))
   \<and> validateName (JSString (replicate 24 (of_char CHR ''a''))) example_db
       = (Inr (), example_db)"
  using validateName_order [of example_db "JSNumber 7" "[]" "replicate 24 (of_char CHR ''a'')"]
    validateName_order [of example_db "JSNull" "replicate 25 (of_char CHR ''a'')" "[]"]
  by simp

text \<open>
  C10. The outcome of \<open>validateName\<close> depends on the name only: two stores give the same
  outcome, the store comes back as it was (no statement is sent, so no uniqueness or
  existence query), and a string of 1 to 24 code units is accepted also when a tag of
  that name is already stored.
\<close>

theorem validateName_ignores_store:
  "fst (validateName name db) = fst (validateName name db')
   \<and> snd (validateName name db) = db
   \<and> (1 \<le> length s \<and> length s \<le> 24 \<and> (\<exists>t \<in> set (tag_entity db). tag_name t = s) \<longrightarrow>
        validateName (JSString s) db = (Inr (), db))"
  by (auto simp: validateName_def TAG_NAME_LENGTH_LIMIT_def split: jsvalue.splits)

theorem validateName_ignores_store_witness:
  "(\<exists>t \<in> set (tag_entity example_db). tag_name t = lit ''alpha'')
   \<and> validateName (JSString (lit ''alpha'')) example_db = (Inr (), example_db)
   \<and> fst (validateName (JSString (lit ''alpha'')) example_db) =
       fst (validateName (JSString (lit ''alpha'')) (example_db\<lparr>tag_entity := []\<rparr>))"
proof -
  have h: "\<exists>t \<in> set (tag_entity example_db). tag_name t = lit ''alpha''"
    by (simp add: example_db_def tag1_def)
  from h validateName_ignores_store
         [of "JSString (lit ''alpha'')" example_db "example_db\<lparr>tag_entity := []\<rparr>"
             "lit ''alpha''"]
  show ?thesis by auto
qed

section \<open>Tag existence\<close>

text \<open>
  C7, as amended. \<open>exists\<close> fails, with the message "Tag with ID {id} does not exist."
  (the final full stop is part of the message) and status 400, exactly when the store's
  lookup finds no tag for the ID, and returns normally exactly when it finds one. Either
  way it sends one \<open>findOne\<close>, a read, and leaves every table as it was.
\<close>

theorem exists_iff:
  "(fst (exists ident db) =
      Inl (ResponseError (lit ''Tag with ID '' @ ident @ lit '' does not exist.'')
             None (Some 400)))
     = (\<not> (\<exists>t \<in> set (tag_entity db). key_matches db (tag_id t) ident))
   \<and> (fst (exists ident db) = Inr ())
       = (\<exists>t \<in> set (tag_entity db). key_matches db (tag_id t) ident)
   \<and> snd (exists ident db) = db\<lparr>executed := executed db @ [FindOneTag ident]\<rparr>
   \<and> is_read (FindOneTag ident)"
proof (cases "find (\<lambda>t. key_matches db (tag_id t) ident) (tag_entity db)")
  case None
  then have "\<not> (\<exists>t \<in> set (tag_entity db). key_matches db (tag_id t) ident)"
    by (auto simp: find_None_iff)
  with None show ?thesis
    by (simp add: exists_def Tag_findOne_def execute_def)
next
  case (Some tag)
  then have "\<exists>t \<in> set (tag_entity db). key_matches db (tag_id t) ident"
    by (auto simp: find_Some_iff)
  with Some show ?thesis
    by (simp add: exists_def Tag_findOne_def execute_def)
qed

theorem exists_iff_witness:
  "fst (exists (lit ''2'') example_db) = Inr ()
   \<and> fst (exists (lit ''02'') example_db) = Inr ()
   \<and> exists (lit ''9'') example_db =
       (Inl (ResponseError (lit ''Tag with ID 9 does not exist.'') None (Some 400)),
        example_db\<lparr>executed := [FindOneTag (lit ''9'')]\<rparr>)"
proof -
  have a: "\<exists>t \<in> set (tag_entity example_db). key_matches example_db (tag_id t) (lit ''2'')"
    by (simp add: example_db_def tag1_def tag2_def tag3_def numeric_match_def
          read_integer_def digit_of_def lit_def)
  have a': "\<exists>t \<in> set (tag_entity example_db). key_matches example_db (tag_id t) (lit ''02'')"
    by (simp add: example_db_def tag1_def tag2_def tag3_def numeric_match_def
          read_integer_def digit_of_def lit_def)
  have b: "\<not> (\<exists>t \<in> set (tag_entity example_db). key_matches example_db (tag_id t) (lit ''9''))"
    by (simp add: example_db_def tag1_def tag2_def tag3_def numeric_match_def
          read_integer_def digit_of_def lit_def)
  have m: "lit ''Tag with ID '' @ lit ''9'' @ lit '' does not exist.''
             = lit ''Tag with ID 9 does not exist.''"
    by (simp add: lit_def)
  have e: "executed example_db = []"
    by (simp add: example_db_def)
  from exists_iff [of "lit ''2''" example_db] a
  have 1: "fst (exists (lit ''2'') example_db) = Inr ()"
    by blast
  from exists_iff [of "lit ''02''" example_db] a'
  have 2: "fst (exists (lit ''02'') example_db) = Inr ()"
    by blast
  from exists_iff [of "lit ''9''" example_db] b
  have "fst (exists (lit ''9'') example_db) =
          Inl (ResponseError (lit ''Tag with ID 9 does not exist.'') None (Some 400))"
    and "snd (exists (lit ''9'') example_db) = example_db\<lparr>executed := [FindOneTag (lit ''9'')]\<rparr>"
    unfolding m [symmetric] by (simp_all add: e)
  then have 3: "exists (lit ''9'') example_db =
       (Inl (ResponseError (lit ''Tag with ID 9 does not exist.'') None (Some 400)),
        example_db\<lparr>executed := [FindOneTag (lit ''9'')]\<rparr>)"
    by (simp add: prod_eq_iff)
  from 1 2 3 show ?thesis by simp
qed

text \<open>
  The claim as written quotes the message without its final full stop. For the ID
  \<open>9\<close>, which no tag of the example store has, the error raised carries the message
  with the full stop, which is not the quoted text.
\<close>

theorem exists_message_counterexample:
  "\<not> (\<exists>t \<in> set (tag_entity example_db). key_matches example_db (tag_id t) (lit ''9''))
   \<and> fst (exists (lit ''9'') example_db)
       \<noteq> Inl (ResponseError (lit ''Tag with ID 9 does not exist'') None (Some 400))"
  by (simp add: exists_def Tag_findOne_def example_db_def tag1_def tag2_def tag3_def
        numeric_match_def read_integer_def digit_of_def lit_def)

section \<open>Relation validation\<close>

text \<open>
  C4. \<open>validateRelations\<close> checks the IDs in sequence order. At the first tag already
  linked to the workflow (the store's membership query finds a link row) it fails with
  the 400 error naming the workflow and that tag, having sent the membership query for
  the IDs up to and including that tag and for no later one. With no linked ID it queries
  every ID and returns normally; and it returns normally exactly when no ID of the
  sequence is linked.
\<close>

theorem validateRelations_fail_fast:
  "((\<forall>p \<in> set pre. \<not> linked db wid p) \<and> linked db wid t \<longrightarrow>
      validateRelations wid (pre @ t # later) db =
        (Inl (ResponseError
                (lit ''Workflow ID '' @ wid @ lit '' and tag ID '' @ t
                   @ lit '' are already related.'')
                None (Some 400)),
         db\<lparr>executed := executed db @ map (SelectWorkflowsTags wid) (pre @ [t])\<rparr>))
   \<and> ((\<forall>p \<in> set ids. \<not> linked db wid p) \<longrightarrow>
        validateRelations wid ids db =
          (Inr (), db\<lparr>executed := executed db @ map (SelectWorkflowsTags wid) ids\<rparr>))
   \<and> (fst (validateRelations wid ids db) = Inr ()) = (\<forall>p \<in> set ids. \<not> linked db wid p)"
  using validateRelations_first_linked [of pre db wid t later]
    validateRelations_all_clear [of ids db wid] validateRelations_ok_iff [of wid ids db]
  by blast

theorem validateRelations_fail_fast_witness:
  "validateRelations (lit ''10'') [lit ''3'', lit ''02'', lit ''1''] example_db =
     (Inl (ResponseError (lit ''Workflow ID 10 and tag ID 02 are already related.'')
             None (Some 400)),
      example_db\<lparr>executed :=
        [SelectWorkflowsTags (lit ''10'') (lit ''3''),
         SelectWorkflowsTags (lit ''10'') (lit ''02'')]\<rparr>)
   \<and> validateRelations (lit ''11'') [lit ''1'', lit ''3''] example_db =
     (Inr (),
      example_db\<lparr>executed :=
        [SelectWorkflowsTags (lit ''11'') (lit ''1''),
         SelectWorkflowsTags (lit ''11'') (lit ''3'')]\<rparr>)"
proof -
  have e: "executed example_db = []"
    by (simp add: example_db_def)
  have a: "\<forall>p \<in> set [lit ''3'']. \<not> linked example_db (lit ''10'') p"
    by (simp add: example_db_def numeric_match_def read_integer_def digit_of_def lit_def)
  have b: "linked example_db (lit ''10'') (lit ''02'')"
    by (simp add: example_db_def numeric_match_def read_integer_def digit_of_def lit_def)
  have c: "\<forall>p \<in> set [lit ''1'', lit ''3'']. \<not> linked example_db (lit ''11'') p"
    by (simp add: example_db_def numeric_match_def read_integer_def digit_of_def lit_def)
  have m: "lit ''Workflow ID '' @ lit ''10'' @ lit '' and tag ID '' @ lit ''02''
             @ lit '' are already related.''
           = lit ''Workflow ID 10 and tag ID 02 are already related.''"
    by (simp add: lit_def)
  from validateRelations_fail_fast
         [of "[lit ''3'']" example_db "lit ''10''" "lit ''02''" "[lit ''1'']" "[]"] a b
  have 1: "validateRelations (lit ''10'') [lit ''3'', lit ''02'', lit ''1''] example_db =
     (Inl (ResponseError (lit ''Workflow ID 10 and tag ID 02 are already related.'')
             None (Some 400)),
      example_db\<lparr>executed :=
        [SelectWorkflowsTags (lit ''10'') (lit ''3''),
         SelectWorkflowsTags (lit ''10'') (lit ''02'')]\<rparr>)"
    unfolding m [symmetric] by (simp add: e)
  from validateRelations_fail_fast
         [of "[]" example_db "lit ''11''" "[]" "[]" "[lit ''1'', lit ''3'']"] c
  have 2: "validateRelations (lit ''11'') [lit ''1'', lit ''3''] example_db =
     (Inr (),
      example_db\<lparr>executed :=
        [SelectWorkflowsTags (lit ''11'') (lit ''1''),
         SelectWorkflowsTags (lit ''11'') (lit ''3'')]\<rparr>)"
    by (simp add: e)
  from 1 2 show ?thesis by simp
qed

section \<open>Sorting by request order\<close>

text \<open>
  C5. The claim has the slot of an ID that matches no tag be undefined. The code reads
  \<open>tagMap[tagId]\<close> on a plain object, so an ID that matches no tag but names a member of
  \<open>Object.prototype\<close> gets that member: for the single tag 1 and the requested ID
  \<open>constructor\<close>, no tag matches and the slot holds the inherited member, not
  undefined. (\<open>sortByRequestOrder_length\<close> and \<open>sortByRequestOrder_slots\<close> above give
  the behaviour on every input: the length of \<open>tagIds\<close>, the matching tag, undefined
  for an ID that matches nothing and is not an inherited name.)
\<close>

theorem sortByRequestOrder_inherited_name:
  "\<not> (\<exists>t \<in> set [tag1]. Number_toString (tag_id t) = lit ''constructor'')
   \<and> sortByRequestOrder [tag1] [lit ''constructor''] = [InheritedSlot (lit ''constructor'')]
   \<and> sortByRequestOrder [tag1] [lit ''constructor''] \<noteq> [UndefinedSlot]"
  by (simp add: sortByRequestOrder_def build_tagMap_def get_property_def tag1_def
        Object_prototype_keys_def Number_toString_def digit_unit_def lit_def)

text \<open>
  C9. When several tags of \<open>tagsResponse\<close> have the same stringified ID, the slot of
  that ID is the last of them: later writes to \<open>tagMap\<close> overwrite earlier ones.
\<close>

theorem sortByRequestOrder_last_wins:
  "(\<forall>u \<in> set later. Number_toString (tag_id u) \<noteq> Number_toString (tag_id t))
     \<and> i < length tagIds \<and> tagIds ! i = Number_toString (tag_id t) \<longrightarrow>
   sortByRequestOrder (earlier @ t # later) tagIds ! i = TagSlot t"
  by (simp add: sortByRequestOrder_nth build_tagMap_last get_property_def)

theorem sortByRequestOrder_last_wins_witness:
  "Number_toString (tag_id tag2) = Number_toString (tag_id tag2_later)
   \<and> tag2 \<noteq> tag2_later
   \<and> sortByRequestOrder [tag2, tag1, tag2_later, tag3] [lit ''1'', lit ''2''] ! 1
       = TagSlot tag2_later"
proof -
  have a: "\<forall>u \<in> set [tag3]. Number_toString (tag_id u) \<noteq> Number_toString (tag_id tag2_later)"
    by (simp add: tag3_def tag2_later_def Number_toString_def digit_unit_def)
  have b: "[lit ''1'', lit ''2''] ! 1 = Number_toString (tag_id tag2_later)"
    by (simp add: tag2_later_def Number_toString_def digit_unit_def lit_def)
  have c: "Number_toString (tag_id tag2) = Number_toString (tag_id tag2_later)"
    by (simp add: tag2_def tag2_later_def)
  have d: "tag2 \<noteq> tag2_later"
    by (simp add: tag2_def tag2_later_def)
  from sortByRequestOrder_last_wins
         [of "[tag3]" tag2_later 1 "[lit ''1'', lit ''2'']" "[tag2, tag1]"] a b
  have "sortByRequestOrder [tag2, tag1, tag2_later, tag3] [lit ''1'', lit ''2''] ! 1
          = TagSlot tag2_later"
    by simp
  with c d show ?thesis by simp
qed

section \<open>Credential ownership and sharing\<close>

text \<open>
  C1. For a credential with an owner, that is, with an ownership record of the user
  in the store, \<open>isOwned\<close> answers \<open>ownsCredential = True\<close> with the credential of such
  a record attached; for a user with no sharing record at all for the credential it
  answers \<open>ownsCredential = False\<close> with no credential. The lookup is one read, changes
  no table, and is made with the global-owner override off: whether the user is a global
  owner does not change the answer.
\<close>

theorem isOwned_ownership:
  "((\<exists>s \<in> set (shared_credentials db). same_pair cid (user_id usr) s \<and> is_owner_role (role s)) \<longrightarrow>
      ownsCredential (fst (isOwned usr cid db))
      \<and> (\<exists>s \<in> set (shared_credentials db).
            same_pair cid (user_id usr) s \<and> is_owner_role (role s)
            \<and> credential (fst (isOwned usr cid db)) = Some (credentials s)))
   \<and> ((\<forall>s \<in> set (shared_credentials db). \<not> same_pair cid (user_id usr) s) \<longrightarrow>
        fst (isOwned usr cid db) = \<lparr>ownsCredential = False, credential = None\<rparr>)
   \<and> snd (isOwned usr cid db) =
        db\<lparr>executed := executed db @ [FindOneSharedCredentials cid (Some (user_id usr))]\<rparr>
   \<and> is_read (FindOneSharedCredentials cid (Some (user_id usr)))
   \<and> fst (isOwned (usr\<lparr>isGlobalOwner := True\<rparr>) cid db)
        = fst (isOwned (usr\<lparr>isGlobalOwner := False\<rparr>) cid db)"
proof -
  let ?P = "\<lambda>s. same_pair cid (user_id usr) s \<and> is_owner_role (role s)"
  have g: "fst (isOwned (usr\<lparr>isGlobalOwner := True\<rparr>) cid db)
             = fst (isOwned (usr\<lparr>isGlobalOwner := False\<rparr>) cid db)"
    by (simp add: isOwned_def getSharing_def execute_def split: option.splits)
  show ?thesis
  proof (cases "find ?P (shared_credentials db)")
    case None
    then have "\<not> (\<exists>s \<in> set (shared_credentials db). ?P s)"
      by (auto simp: find_None_iff)
    with isOwned_not_found [OF None] g show ?thesis by auto
  next
    case (Some s)
    from find_Some_member [OF Some] have "s \<in> set (shared_credentials db)" "?P s"
      by simp_all
    with isOwned_found [OF Some] g show ?thesis by auto
  qed
qed

theorem isOwned_ownership_witness:
  "isOwned ann (lit ''c1'') example_db =
     (\<lparr>ownsCredential = True, credential = Some cred1\<rparr>,
      example_db\<lparr>executed := [FindOneSharedCredentials (lit ''c1'') (Some (lit ''ann''))]\<rparr>)
   \<and> isGlobalOwner bob
   \<and> isOwned bob (lit ''c1'') example_db =
     (\<lparr>ownsCredential = False, credential = None\<rparr>,
      example_db\<lparr>executed := [FindOneSharedCredentials (lit ''c1'') (Some (lit ''bob''))]\<rparr>)"
proof -
  have sc: "shared_credentials example_db = [\<lparr>credentials = cred1, user = ann, role = owner_role\<rparr>]"
    and ex: "executed example_db = []"
    by (simp_all add: example_db_def)
  have a: "\<exists>s \<in> set (shared_credentials example_db).
             same_pair (lit ''c1'') (user_id ann) s \<and> is_owner_role (role s)"
    by (simp add: sc same_pair_def is_owner_role_def ann_def cred1_def owner_role_def)
  have b: "\<forall>s \<in> set (shared_credentials example_db). \<not> same_pair (lit ''c1'') (user_id bob) s"
    by (simp add: sc same_pair_def ann_def bob_def lit_def)
  from isOwned_ownership [of example_db "lit ''c1''" ann] a
  have 1: "isOwned ann (lit ''c1'') example_db =
     (\<lparr>ownsCredential = True, credential = Some cred1\<rparr>,
      example_db\<lparr>executed := [FindOneSharedCredentials (lit ''c1'') (Some (lit ''ann''))]\<rparr>)"
    by (cases "isOwned ann (lit ''c1'') example_db") (auto simp: sc ex ann_def)
  from isOwned_ownership [of example_db "lit ''c1''" bob] b
  have 2: "isOwned bob (lit ''c1'') example_db =
     (\<lparr>ownsCredential = False, credential = None\<rparr>,
      example_db\<lparr>executed := [FindOneSharedCredentials (lit ''c1'') (Some (lit ''bob''))]\<rparr>)"
    by (cases "isOwned bob (lit ''c1'') example_db") (auto simp: ex bob_def)
  from 1 2 show ?thesis by (simp add: bob_def)
qed

text \<open>
  C2. After \<open>share\<close> of a credential with a user, \<open>unshare\<close> of the pair leaves no
  record for the pair. \<open>unshare\<close> always succeeds and keeps exactly the records that do
  not match the pair, so it deletes nothing else; a second \<open>unshare\<close> succeeds, deletes
  zero rows and leaves the records as they were.
\<close>

theorem share_then_unshare:
  "filter (same_pair (cred_id cred) (user_id sharee))
       (shared_credentials (snd (unshare (cred_id cred) (user_id sharee)
                                   (snd (share cred sharee db))))) = []
   \<and> shared_credentials (snd (unshare (cred_id cred) (user_id sharee) (snd (share cred sharee db))))
       = filter (\<lambda>x. \<not> same_pair (cred_id cred) (user_id sharee) x) (shared_credentials db)
   \<and> unshare cid uid db =
       (Inr (),
        db\<lparr>shared_credentials := filter (\<lambda>x. \<not> same_pair cid uid x) (shared_credentials db),
           executed := executed db @ [DeleteSharedCredentials cid uid]\<rparr>)
   \<and> fst (unshare cid uid (snd (unshare cid uid db))) = Inr ()
   \<and> shared_credentials (snd (unshare cid uid (snd (unshare cid uid db))))
       = shared_credentials (snd (unshare cid uid db))
   \<and> fst (SharedCredentials_delete cid uid (snd (unshare cid uid db))) = 0"
  using shared_credentials_share [of cred sharee db]
  by (simp add: unshare_eq SharedCredentials_delete_def)

theorem share_then_unshare_witness:
  "shared_credentials (snd (share cred1 bob example_db))
       = [\<lparr>credentials = cred1, user = ann, role = owner_role\<rparr>,
          \<lparr>credentials = cred1, user = bob, role = editor_role\<rparr>]
   \<and> shared_credentials (snd (unshare (lit ''c1'') (lit ''bob'') (snd (share cred1 bob example_db))))
       = [\<lparr>credentials = cred1, user = ann, role = owner_role\<rparr>]
   \<and> fst (unshare (lit ''c1'') (lit ''bob'')
            (snd (unshare (lit ''c1'') (lit ''bob'') (snd (share cred1 bob example_db)))))
       = Inr ()"
proof -
  have f: "fst (RoleService_get (lit ''credential'') (lit ''editor'') example_db)
             = Inr editor_role"
    by (simp add: RoleService_get_def example_db_def owner_role_def editor_role_def lit_def)
  have 1: "shared_credentials (snd (share cred1 bob example_db))
       = [\<lparr>credentials = cred1, user = ann, role = owner_role\<rparr>,
          \<lparr>credentials = cred1, user = bob, role = editor_role\<rparr>]"
    using share_role_found [OF f, of cred1 bob]
    by (simp add: example_db_def same_pair_def ann_def bob_def lit_def)
  have ids: "cred_id cred1 = lit ''c1''" "user_id bob = lit ''bob''"
    by (simp_all add: cred1_def bob_def)
  have k: "filter (\<lambda>x. \<not> same_pair (lit ''c1'') (lit ''bob'') x) (shared_credentials example_db)
             = [\<lparr>credentials = cred1, user = ann, role = owner_role\<rparr>]"
    by (simp add: example_db_def same_pair_def ann_def lit_def)
  from share_then_unshare
         [of cred1 bob example_db "lit ''c1''" "lit ''bob''"]
  have 2: "shared_credentials
             (snd (unshare (lit ''c1'') (lit ''bob'') (snd (share cred1 bob example_db))))
           = [\<lparr>credentials = cred1, user = ann, role = owner_role\<rparr>]"
    by (simp add: ids k)
  from share_then_unshare
         [of cred1 bob "snd (share cred1 bob example_db)" "lit ''c1''" "lit ''bob''"]
  have 3: "fst (unshare (lit ''c1'') (lit ''bob'')
            (snd (unshare (lit ''c1'') (lit ''bob'') (snd (share cred1 bob example_db)))))
       = Inr ()"
    by blast
  from 1 2 3 show ?thesis by simp
qed

text \<open>
  C6. \<open>share\<close> resolves the role of scope \<open>credential\<close> and name \<open>editor\<close>. When the
  lookup fails, \<open>share\<close> fails with the same failure and the only statement sent is the
  lookup: nothing is saved. Otherwise it saves and returns the record of the credential,
  the sharee and the resolved role; the statements sent are the role lookup and the save,
  with no query for an existing share of the pair, whatever the store holds.
\<close>

theorem share_resolves_editor_role:
  "(fst (RoleService_get (lit ''credential'') (lit ''editor'') db) = Inl e \<longrightarrow>
      share cred sharee db =
        (Inl e, db\<lparr>executed := executed db @ [FindOneRole (lit ''credential'') (lit ''editor'')]\<rparr>))
   \<and> (fst (RoleService_get (lit ''credential'') (lit ''editor'') db) = Inr r \<longrightarrow>
        fst (share cred sharee db) = Inr \<lparr>credentials = cred, user = sharee, role = r\<rparr>
        \<and> \<lparr>credentials = cred, user = sharee, role = r\<rparr>
             \<in> set (shared_credentials (snd (share cred sharee db)))
        \<and> executed (snd (share cred sharee db)) =
             executed db @
               [FindOneRole (lit ''credential'') (lit ''editor''),
                SaveSharedCredentials \<lparr>credentials = cred, user = sharee, role = r\<rparr>])"
  using share_role_missing [of db e cred sharee] share_role_found [of db r cred sharee]
  by auto

theorem share_resolves_editor_role_witness:
  "share cred1 bob no_roles_db =
     (Inl (RoleMissing (lit ''credential'') (lit ''editor'')),
      no_roles_db\<lparr>executed := [FindOneRole (lit ''credential'') (lit ''editor'')]\<rparr>)
   \<and> fst (share cred1 bob example_db)
       = Inr \<lparr>credentials = cred1, user = bob, role = editor_role\<rparr>
   \<and> shared_credentials (snd (share cred1 bob example_db))
       = [\<lparr>credentials = cred1, user = ann, role = owner_role\<rparr>,
          \<lparr>credentials = cred1, user = bob, role = editor_role\<rparr>]
   \<and> fst (share cred1 bob (snd (share cred1 bob example_db)))
       = Inr \<lparr>credentials = cred1, user = bob, role = editor_role\<rparr>"
proof -
  have n: "fst (RoleService_get (lit ''credential'') (lit ''editor'') no_roles_db)
             = Inl (RoleMissing (lit ''credential'') (lit ''editor''))"
    by (simp add: RoleService_get_def no_roles_db_def)
  have f: "fst (RoleService_get (lit ''credential'') (lit ''editor'') example_db)
             = Inr editor_role"
    by (simp add: RoleService_get_def example_db_def owner_role_def editor_role_def lit_def)
  have en: "executed no_roles_db = []"
    by (simp add: no_roles_db_def example_db_def)
  from share_resolves_editor_role
         [of no_roles_db "RoleMissing (lit ''credential'') (lit ''editor'')" cred1 bob editor_role] n
  have 1: "share cred1 bob no_roles_db =
     (Inl (RoleMissing (lit ''credential'') (lit ''editor'')),
      no_roles_db\<lparr>executed := [FindOneRole (lit ''credential'') (lit ''editor'')]\<rparr>)"
    by (simp add: en)
  from share_resolves_editor_role
         [of example_db "RoleMissing (lit ''credential'') (lit ''editor'')" cred1 bob editor_role] f
  have 2: "fst (share cred1 bob example_db)
             = Inr \<lparr>credentials = cred1, user = bob, role = editor_role\<rparr>"
    by simp
  have 3: "shared_credentials (snd (share cred1 bob example_db))
       = [\<lparr>credentials = cred1, user = ann, role = owner_role\<rparr>,
          \<lparr>credentials = cred1, user = bob, role = editor_role\<rparr>]"
    using share_role_found [OF f, of cred1 bob]
    by (simp add: example_db_def same_pair_def ann_def bob_def lit_def)
  have "fst (RoleService_get (lit ''credential'') (lit ''editor'')
               (snd (share cred1 bob example_db))) = Inr editor_role"
    using share_role_found [OF f, of cred1 bob]
    by (simp add: RoleService_get_def example_db_def owner_role_def editor_role_def lit_def)
  with share_resolves_editor_role
         [of "snd (share cred1 bob example_db)" "RoleMissing [] []" cred1 bob editor_role]
  have 4: "fst (share cred1 bob (snd (share cred1 bob example_db)))
       = Inr \<lparr>credentials = cred1, user = bob, role = editor_role\<rparr>"
    by simp
  from 1 2 3 4 show ?thesis by simp
qed

section \<open>Tags with usage count\<close>

text \<open>
  C8. On a store whose primary keys hold, \<open>getAllTagsWithUsageCount\<close> returns one row
  per stored tag, with the tag's id and name and, as \<open>usageCount\<close>, the number of
  workflows linked to the tag. A tag with no linked workflow is in the result with
  \<open>usageCount = 0\<close>. The query is one read.
\<close>

theorem usageCount_per_tag:
  "primary_keys db \<longrightarrow>
     fst (getAllTagsWithUsageCount db) =
       map (\<lambda>t. \<lparr>row_id = tag_id t, row_name = tag_name t,
                  usageCount = card (workflows_of db t)\<rparr>) (tag_entity db)
     \<and> (\<forall>t \<in> set (tag_entity db). workflows_of db t = {} \<longrightarrow>
           \<lparr>row_id = tag_id t, row_name = tag_name t, usageCount = 0\<rparr>
             \<in> set (fst (getAllTagsWithUsageCount db)))
     \<and> snd (getAllTagsWithUsageCount db) = db\<lparr>executed := executed db @ [SelectTagsWithUsageCount]\<rparr>"
proof
  assume pk: "primary_keys db"
  note rows = getAllTagsWithUsageCount_rows [OF pk]
  have zero: "\<forall>t \<in> set (tag_entity db). workflows_of db t = {} \<longrightarrow>
           \<lparr>row_id = tag_id t, row_name = tag_name t, usageCount = 0\<rparr>
             \<in> set (fst (getAllTagsWithUsageCount db))"
  proof (intro ballI impI)
    fix t
    assume "t \<in> set (tag_entity db)" and "workflows_of db t = {}"
    then show "\<lparr>row_id = tag_id t, row_name = tag_name t, usageCount = 0\<rparr>
             \<in> set (fst (getAllTagsWithUsageCount db))"
      unfolding rows by force
  qed
  have "snd (getAllTagsWithUsageCount db) = db\<lparr>executed := executed db @ [SelectTagsWithUsageCount]\<rparr>"
    by (simp add: getAllTagsWithUsageCount_def execute_def)
  with rows zero show "fst (getAllTagsWithUsageCount db) =
       map (\<lambda>t. \<lparr>row_id = tag_id t, row_name = tag_name t,
                  usageCount = card (workflows_of db t)\<rparr>) (tag_entity db)
     \<and> (\<forall>t \<in> set (tag_entity db). workflows_of db t = {} \<longrightarrow>
           \<lparr>row_id = tag_id t, row_name = tag_name t, usageCount = 0\<rparr>
             \<in> set (fst (getAllTagsWithUsageCount db)))
     \<and> snd (getAllTagsWithUsageCount db) = db\<lparr>executed := executed db @ [SelectTagsWithUsageCount]\<rparr>"
    by blast
qed

theorem usageCount_per_tag_witness:
  "primary_keys example_db
   \<and> workflows_of example_db tag3 = {}
   \<and> fst (getAllTagsWithUsageCount example_db) =
       [\<lparr>row_id = 1, row_name = lit ''alpha'', usageCount = 1\<rparr>,
        \<lparr>row_id = 2, row_name = lit ''beta'', usageCount = 2\<rparr>,
        \<lparr>row_id = 3, row_name = lit ''gamma'', usageCount = 0\<rparr>]"
proof -
  have pk: "primary_keys example_db"
    by (simp add: primary_keys_def example_db_def tag1_def tag2_def tag3_def)
  have c1: "card (workflows_of example_db tag1) = 1"
    by (simp add: workflows_of_filter example_db_def tag1_def)
  have c2: "card (workflows_of example_db tag2) = 2"
    by (simp add: workflows_of_filter example_db_def tag2_def)
  have c3: "workflows_of example_db tag3 = {}"
    by (simp add: workflows_of_filter example_db_def tag3_def)
  have ts: "tag_entity example_db = [tag1, tag2, tag3]"
    by (simp add: example_db_def)
  from usageCount_per_tag [of example_db] pk
  have "fst (getAllTagsWithUsageCount example_db) =
       map (\<lambda>t. \<lparr>row_id = tag_id t, row_name = tag_name t,
                  usageCount = card (workflows_of example_db t)\<rparr>) (tag_entity example_db)"
    by blast
  then have "fst (getAllTagsWithUsageCount example_db) =
       [\<lparr>row_id = 1, row_name = lit ''alpha'', usageCount = 1\<rparr>,
        \<lparr>row_id = 2, row_name = lit ''beta'', usageCount = 2\<rparr>,
        \<lparr>row_id = 3, row_name = lit ''gamma'', usageCount = 0\<rparr>]"
    by (simp add: ts c1 c2 c3) (simp add: tag1_def tag2_def tag3_def)
  with pk c3 show ?thesis by simp
qed

end
